theory Spec2Isabelle
  imports Complex_Main "HOL-Library.Word"
begin

unbundle bit_operations_syntax

section \<open>Python values used by ChessnutAir.py\<close>

text \<open>
  The exceptions the modelled code can raise: a missing dictionary key, an index out of
  range, a symbol that is no piece symbol (\<open>list.index\<close>, \<open>int\<close>), and an attribute
  read on \<open>None\<close> (the connection before \<open>run\<close>).
\<close>

datatype error = KeyError | IndexError | ValueError | AttributeError

type_synonym byte = "8 word"

text \<open>\<open>xs[i]\<close> for an index that is not negative.\<close>

definition getitem :: "'a list \<Rightarrow> nat \<Rightarrow> error + 'a" where
  "getitem xs i = (if i < length xs then Inr (xs ! i) else Inl IndexError)"

text \<open>\<open>d[k]\<close> on a dictionary.\<close>

definition dict_get :: "('k \<rightharpoonup> 'v) \<Rightarrow> 'k \<Rightarrow> error + 'v" where
  "dict_get d k = (case d k of None \<Rightarrow> Inl KeyError | Some v \<Rightarrow> Inr v)"

text \<open>\<open>str(n)\<close> for an integer: decimal digits, a minus sign in front of a negative one.\<close>

definition digit_char :: "nat \<Rightarrow> char" where
  "digit_char d = ''0123456789'' ! d"

fun str_nat :: "nat \<Rightarrow> string" where
  "str_nat n = (if n < 10 then [digit_char n] else str_nat (n div 10) @ [digit_char (n mod 10)])"

definition str_int :: "int \<Rightarrow> string" where
  "str_int i = (if i < 0 then CHR ''-'' # str_nat (nat (- i)) else str_nat (nat i))"

section \<open>Square notation\<close>

text \<open>
  \<open>loc_to_pos(location, rev=False)\<close>:
  \<^verbatim>\<open>"hgfedcba"[location % 8]+str((8-(location//8)) if not rev else (location//8))\<close>.
  Python's \<open>%\<close> and \<open>//\<close> round towards minus infinity, as \<open>mod\<close> and \<open>div\<close> on \<open>int\<close> do,
  so \<open>location % 8\<close> is always an index of the eight-letter string.
\<close>

definition loc_to_pos :: "int \<Rightarrow> bool \<Rightarrow> string" where
  "loc_to_pos location rv =
     (''hgfedcba'' ! nat (location mod 8)) #
       str_int (if \<not> rv then 8 - location div 8 else location div 8)"

section \<open>The python-chess values the code uses\<close>

text \<open>
  \<open>chess.Piece\<close> is a piece type with a colour (\<open>True\<close> is white); two pieces are equal
  when both agree. \<open>PIECE_SYMBOLS\<close> is the library's list \<open>[None, "p", "n", "b", "r", "q", "k"]\<close>,
  here the symbol of each piece type in the list's order.
\<close>

datatype piece_type = PAWN | KNIGHT | BISHOP | ROOK | QUEEN | KING

datatype piece = Piece (piece_type: piece_type) (color: bool)

definition PIECE_SYMBOLS :: "(char \<times> piece_type) list" where
  "PIECE_SYMBOLS =
     [(CHR ''p'', PAWN), (CHR ''n'', KNIGHT), (CHR ''b'', BISHOP),
      (CHR ''r'', ROOK), (CHR ''q'', QUEEN), (CHR ''k'', KING)]"

fun piece_symbol :: "piece_type \<Rightarrow> char" where
  "piece_symbol PAWN = CHR ''p''"
| "piece_symbol KNIGHT = CHR ''n''"
| "piece_symbol BISHOP = CHR ''b''"
| "piece_symbol ROOK = CHR ''r''"
| "piece_symbol QUEEN = CHR ''q''"
| "piece_symbol KING = CHR ''k''"

text \<open>
  \<open>str.lower\<close>, \<open>str.upper\<close> and \<open>str.isupper\<close> on one character, for the ASCII letters;
  the library applies them to piece symbols only, and no other character below 256 is
  lowered to one of \<open>pnbrqk\<close>.
\<close>

definition lower_char :: "char \<Rightarrow> char" where
  "lower_char c =
     (case map_of (zip ''ABCDEFGHIJKLMNOPQRSTUVWXYZ'' ''abcdefghijklmnopqrstuvwxyz'') c of
        Some d \<Rightarrow> d | None \<Rightarrow> c)"

definition upper_char :: "char \<Rightarrow> char" where
  "upper_char c =
     (case map_of (zip ''abcdefghijklmnopqrstuvwxyz'' ''ABCDEFGHIJKLMNOPQRSTUVWXYZ'') c of
        Some d \<Rightarrow> d | None \<Rightarrow> c)"

definition isupper_char :: "char \<Rightarrow> bool" where
  "isupper_char c = (c \<in> set ''ABCDEFGHIJKLMNOPQRSTUVWXYZ'')"

text \<open>
  \<open>Piece.from_symbol(symbol)\<close> is \<open>Piece(PIECE_SYMBOLS.index(symbol.lower()), symbol.isupper())\<close>;
  \<open>index\<close> raises ValueError for a symbol that is not in the list.
\<close>

definition from_symbol :: "char \<Rightarrow> error + piece" where
  "from_symbol c =
     (case map_of PIECE_SYMBOLS (lower_char c) of
        None \<Rightarrow> Inl ValueError
      | Some t \<Rightarrow> Inr (Piece t (isupper_char c)))"

text \<open>\<open>Piece.symbol()\<close>: the type's symbol, in upper case for a white piece.\<close>

definition symbol :: "piece \<Rightarrow> char" where
  "symbol pc =
     (if color pc then upper_char (piece_symbol (piece_type pc))
      else piece_symbol (piece_type pc))"

text \<open>
  A \<open>chess.SquareSet\<close> is a 64-bit mask, bit \<open>n\<close> for square \<open>n\<close> (a1 = 0, h1 = 7,
  a8 = 56, h8 = 63); \<open>square in squares\<close> tests that bit.
\<close>

type_synonym squareset = "64 word"

definition BB_FILE_A :: squareset where
  "BB_FILE_A = 0x0101010101010101"

definition in_squareset :: "nat \<Rightarrow> squareset \<Rightarrow> bool" where
  "in_squareset square squares = bit squares square"

text \<open>
  \<open>chess.flip_horizontal(bb)\<close> mirrors the files by three swaps of neighbouring bit
  groups (1, 2 and 4 wide).
\<close>

definition flip_horizontal :: "squareset \<Rightarrow> squareset" where
  "flip_horizontal bb =
     (let b1 = (drop_bit 1 bb AND 0x5555555555555555) OR push_bit 1 (bb AND 0x5555555555555555);
          b2 = (drop_bit 2 b1 AND 0x3333333333333333) OR push_bit 2 (b1 AND 0x3333333333333333);
          b3 = (drop_bit 4 b2 AND 0x0f0f0f0f0f0f0f0f) OR push_bit 4 (b2 AND 0x0f0f0f0f0f0f0f0f)
      in b3)"

text \<open>\<open>n.to_bytes(8, byteorder='big')\<close>: the most significant byte first.\<close>

definition to_bytes_big :: "squareset \<Rightarrow> byte list" where
  "to_bytes_big n = map (\<lambda>k. ucast (drop_bit (8 * (7 - k)) n)) [0..<8]"

section \<open>Decoding the board state\<close>

text \<open>
  The board state is the 32-element list \<open>[0] * 32\<close> that \<open>__init__\<close> stores, or the
  bytearray slice the notification handler stores. Python compares a bytearray and a
  list as unequal whatever they hold, as the two constructors are here.
\<close>

datatype buffer = IntList "byte list" | ByteArray "byte list"

fun items :: "buffer \<Rightarrow> byte list" where
  "items (IntList xs) = xs"
| "items (ByteArray xs) = xs"

text \<open>
  \<open>convertDict\<close> is imported from \<open>constants\<close>, which is not among the sources: the
  table is a parameter \<open>cd\<close> of every function that reads it, a dictionary from nibble
  to one-character symbol.

  \<open>chess.Piece.from_symbol(s) if s != ' ' else None\<close> after the lookup \<open>s = convertDict[nibble]\<close>:
\<close>

definition square_piece :: "(nat \<rightharpoonup> char) \<Rightarrow> nat \<Rightarrow> error + piece option" where
  "square_piece cd nibble =
     (case dict_get cd nibble of
        Inl e \<Rightarrow> Inl e
      | Inr s \<Rightarrow>
          if s \<noteq> CHR '' '' then
            (case from_symbol s of Inl e \<Rightarrow> Inl e | Inr pc \<Rightarrow> Inr (Some pc))
          else Inr None)"

text \<open>
  \<open>board_state_as_square_and_piece\<close> is a generator: its value is the list of the pairs
  it yields and, when it stops by raising, the exception. It yields the left square of a
  byte before it looks the right nibble up. The index \<open>i\<close> stays below 32, so the
  subtractions from 63 never go below 0.
\<close>

fun decode_from :: "(nat \<rightharpoonup> char) \<Rightarrow> byte list \<Rightarrow> nat list
    \<Rightarrow> (nat \<times> piece option) list \<times> error option" where
  "decode_from cd bs [] = ([], None)"
| "decode_from cd bs (i # is) =
     (case getitem bs i of
        Inl e \<Rightarrow> ([], Some e)
      | Inr pair \<Rightarrow>
          (let left = unat (pair AND 0xf); right = unat (drop_bit 4 pair) in
           case square_piece cd left of
             Inl e \<Rightarrow> ([], Some e)
           | Inr pl \<Rightarrow>
               (case square_piece cd right of
                  Inl e \<Rightarrow> ([(63 - i * 2, pl)], Some e)
                | Inr pr \<Rightarrow>
                    (case decode_from cd bs is of
                       (ys, err) \<Rightarrow> ((63 - i * 2, pl) # (63 - (i * 2 + 1), pr) # ys, err)))))"

definition board_state_as_square_and_piece ::
    "(nat \<rightharpoonup> char) \<Rightarrow> buffer \<Rightarrow> (nat \<times> piece option) list \<times> error option" where
  "board_state_as_square_and_piece cd board_state = decode_from cd (items board_state) [0..<32]"

section \<open>The session\<close>

text \<open>
  The fields of \<open>ChessnutAir\<close> the modelled methods read or write. The connection is
  \<open>None\<close> until \<open>run\<close> sets it; a connected one is the list of the payloads written to
  the board so far. \<open>sleeps\<close> lists the durations handed to \<open>asyncio.sleep\<close>.
\<close>

record session =
  board_state :: buffer
  old_data :: buffer
  led_command :: "byte list"
  board_changed :: bool
  cur_fen :: string
  to_blink :: squareset
  to_light :: squareset
  tick :: bool
  connection :: "byte list list option"
  sleeps :: "real list"

definition init :: session where
  "init = \<lparr> board_state = IntList (replicate 32 0), old_data = IntList (replicate 32 0),
            led_command = [0x0A, 0x08], board_changed = False, cur_fen = '' '',
            to_blink = 0, to_light = 0, tick = False, connection = None, sleeps = [] \<rparr>"

section \<open>Composing the notation\<close>

text \<open>\<open>str.split(sep)\<close> and \<open>sep.join(parts)\<close>.\<close>

fun split_on :: "char \<Rightarrow> string \<Rightarrow> string list" where
  "split_on sep [] = [[]]"
| "split_on sep (c # cs) =
     (if c = sep then [] # split_on sep cs
      else (case split_on sep cs of [] \<Rightarrow> [[c]] | r # rs \<Rightarrow> (c # r) # rs))"

fun join :: "string \<Rightarrow> string list \<Rightarrow> string" where
  "join sep [] = []"
| "join sep [x] = x"
| "join sep (x # y # ys) = x @ sep @ join sep (y # ys)"

text \<open>The loop state of \<open>board_state_as_fen\<close> is the pair of \<open>fen\<close> and \<open>empty_count\<close>.\<close>

definition handle_empties :: "string \<times> nat \<Rightarrow> string \<times> nat" where
  "handle_empties st =
     (case st of (fen, empty_count) \<Rightarrow>
        if empty_count > 0 then (fen @ str_nat empty_count, 0) else (fen, empty_count))"

fun fen_step :: "nat \<times> piece option \<Rightarrow> string \<times> nat \<Rightarrow> string \<times> nat" where
  "fen_step (square, pc) st =
     (let st1 = (case pc of
                   Some p \<Rightarrow> (case handle_empties st of (fen, n) \<Rightarrow> (fen @ [symbol p], n))
                 | None \<Rightarrow> (fst st, snd st + 1))
      in if in_squareset square BB_FILE_A
         then (case handle_empties st1 of (fen, n) \<Rightarrow> (fen @ ''/'', n))
         else st1)"

definition board_state_as_fen :: "(nat \<rightharpoonup> char) \<Rightarrow> session \<Rightarrow> error + string \<times> session" where
  "board_state_as_fen cd s =
     (case board_state_as_square_and_piece cd (board_state s) of
        (ys, err) \<Rightarrow>
          (case fold fen_step ys ([], 0) of
             (fen, n) \<Rightarrow>
               (case err of
                  Some e \<Rightarrow> Inl e
                | None \<Rightarrow>
                    (let cur = join ''/'' (map rev (split_on CHR ''/'' (butlast fen)))
                     in Inr (cur, s\<lparr>cur_fen := cur\<rparr>)))))"

section \<open>Comparing with a target notation\<close>

text \<open>
  Strings are read over the code points below 256. \<open>str.isspace\<close> holds for 9..13,
  28..32, 133 and 160 there, \<open>str.isdigit\<close> for the ten digits and the superscripts
  178, 179 and 185, which \<open>int\<close> refuses.
\<close>

definition isspace_char :: "char \<Rightarrow> bool" where
  "isspace_char c =
     (let n = (of_char c :: nat) in (9 \<le> n \<and> n \<le> 13) \<or> (28 \<le> n \<and> n \<le> 32) \<or> n = 133 \<or> n = 160)"

definition isdigit_char :: "char \<Rightarrow> bool" where
  "isdigit_char c =
     (let n = (of_char c :: nat) in (48 \<le> n \<and> n \<le> 57) \<or> n = 178 \<or> n = 179 \<or> n = 185)"

definition int_char :: "char \<Rightarrow> error + nat" where
  "int_char c =
     (let n = (of_char c :: nat) in if 48 \<le> n \<and> n \<le> 57 then Inr (n - 48) else Inl ValueError)"

text \<open>\<open>fen.split()[0]\<close>: the first field between white space.\<close>

definition first_field :: "string \<Rightarrow> error + string" where
  "first_field fen =
     (case dropWhile isspace_char fen of
        [] \<Rightarrow> Inl IndexError
      | t \<Rightarrow> Inr (takeWhile (\<lambda>c. \<not> isspace_char c) t))"

definition expand_char :: "char \<Rightarrow> error + string" where
  "expand_char p =
     (if isdigit_char p \<and> p \<noteq> CHR ''1'' then
        (case int_char p of Inl e \<Rightarrow> Inl e | Inr n \<Rightarrow> Inr (replicate n CHR ''1''))
      else Inr [p])"

fun expand_all :: "string \<Rightarrow> error + string" where
  "expand_all [] = Inr []"
| "expand_all (p # ps) =
     (case expand_char p of
        Inl e \<Rightarrow> Inl e
      | Inr s \<Rightarrow> (case expand_all ps of Inl e \<Rightarrow> Inl e | Inr r \<Rightarrow> Inr (s @ r)))"

definition convert_fen :: "string \<Rightarrow> error + string" where
  "convert_fen fen = (case first_field fen of Inl e \<Rightarrow> Inl e | Inr f \<Rightarrow> expand_all f)"

fun compare_loop :: "string \<Rightarrow> (nat \<times> piece option) list
    \<Rightarrow> error + (piece option \<times> nat \<times> piece option) list" where
  "compare_loop target [] = Inr []"
| "compare_loop target ((square, pc) # xs) =
     (case getitem target square of
        Inl e \<Rightarrow> Inl e
      | Inr t \<Rightarrow>
          (case (if t \<noteq> CHR ''1''
                 then (case from_symbol t of Inl e \<Rightarrow> Inl e | Inr q \<Rightarrow> Inr (Some q))
                 else Inr None) of
             Inl e \<Rightarrow> Inl e
           | Inr new_piece \<Rightarrow>
               (case compare_loop target xs of
                  Inl e \<Rightarrow> Inl e
                | Inr differences \<Rightarrow>
                    Inr (if pc \<noteq> new_piece then (pc, square, new_piece) # differences
                         else differences))))"

definition compare_board_state_to_fen :: "(nat \<rightharpoonup> char) \<Rightarrow> session \<Rightarrow> string
    \<Rightarrow> error + (piece option \<times> nat \<times> piece option) list" where
  "compare_board_state_to_fen cd s target_fen =
     (case convert_fen target_fen of
        Inl e \<Rightarrow> Inl e
      | Inr conv \<Rightarrow>
          (let target = concat (rev (split_on CHR ''/'' conv)) in
           case board_state_as_square_and_piece cd (board_state s) of
             (ys, err) \<Rightarrow>
               (case compare_loop target ys of
                  Inl e \<Rightarrow> Inl e
                | Inr differences \<Rightarrow>
                    (case err of Some e \<Rightarrow> Inl e | None \<Rightarrow> Inr differences))))"

section \<open>The LED command\<close>

text \<open>The write to the board: \<open>self._connection.write_gatt_char(WRITE_CHARACTERISTIC, payload)\<close>.\<close>

definition write_gatt_char :: "session \<Rightarrow> byte list \<Rightarrow> error + session" where
  "write_gatt_char s payload =
     (case connection s of
        None \<Rightarrow> Inl AttributeError
      | Some written \<Rightarrow> Inr (s\<lparr>connection := Some (written @ [payload])\<rparr>))"

text \<open>
  The argument of \<open>change_leds\<close>: a \<open>chess.SquareSet\<close>, a list of square names, or
  \<open>None\<close>.
\<close>

datatype led_request = SquareSet squareset | PosList "string list" | NoRequest

definition conv_letter :: "char \<rightharpoonup> byte" where
  "conv_letter =
     [CHR ''a'' \<mapsto> 128, CHR ''b'' \<mapsto> 64, CHR ''c'' \<mapsto> 32, CHR ''d'' \<mapsto> 16,
      CHR ''e'' \<mapsto> 8, CHR ''f'' \<mapsto> 4, CHR ''g'' \<mapsto> 2, CHR ''h'' \<mapsto> 1]"

definition conv_number :: "char \<rightharpoonup> nat" where
  "conv_number =
     [CHR ''1'' \<mapsto> 7, CHR ''2'' \<mapsto> 6, CHR ''3'' \<mapsto> 5, CHR ''4'' \<mapsto> 4,
      CHR ''5'' \<mapsto> 3, CHR ''6'' \<mapsto> 2, CHR ''7'' \<mapsto> 1, CHR ''8'' \<mapsto> 0]"

text \<open>
  \<open>arr[conv_number[pos[1]]] |= conv_letter[pos[0]]\<close>: Python evaluates the index of the
  target before the right-hand side.
\<close>

definition light_pos :: "string \<Rightarrow> byte list \<Rightarrow> error + byte list" where
  "light_pos pos arr =
     (case getitem pos 1 of
        Inl e \<Rightarrow> Inl e
      | Inr r \<Rightarrow>
          (case dict_get conv_number r of
             Inl e \<Rightarrow> Inl e
           | Inr idx \<Rightarrow>
               (case getitem pos 0 of
                  Inl e \<Rightarrow> Inl e
                | Inr f \<Rightarrow>
                    (case dict_get conv_letter f of
                       Inl e \<Rightarrow> Inl e
                     | Inr m \<Rightarrow> Inr (arr[idx := (arr ! idx) OR m])))))"

fun light_all :: "string list \<Rightarrow> byte list \<Rightarrow> error + byte list" where
  "light_all [] arr = Inr arr"
| "light_all (pos # rest) arr =
     (case light_pos pos arr of Inl e \<Rightarrow> Inl e | Inr arr' \<Rightarrow> light_all rest arr')"

definition change_leds :: "session \<Rightarrow> led_request \<Rightarrow> error + session" where
  "change_leds s list_of_pos =
     (case list_of_pos of
        SquareSet squares \<Rightarrow>
          write_gatt_char s (led_command s @ to_bytes_big (flip_horizontal squares))
      | NoRequest \<Rightarrow> Inr s
      | PosList ps \<Rightarrow>
          (case light_all ps (replicate 8 0) of
             Inl e \<Rightarrow> Inl e
           | Inr arr \<Rightarrow> write_gatt_char s (led_command s @ arr)))"

text \<open>
  \<open>blink_tick(sleep_time)\<close>: the union of two square sets is the bitwise or of their
  masks.
\<close>

definition blink_tick :: "session \<Rightarrow> real \<Rightarrow> error + session" where
  "blink_tick s sleep_time =
     (let s1 = s\<lparr>tick := \<not> tick s\<rparr> in
      case (if tick s1 then change_leds s1 (SquareSet (to_blink s1 OR to_light s1))
            else change_leds s1 (SquareSet (to_light s1))) of
        Inl e \<Rightarrow> Inl e
      | Inr s2 \<Rightarrow>
          if sleep_time > 0 then Inr (s2\<lparr>sleeps := sleeps s2 @ [sleep_time]\<rparr>) else Inr s2)"

section \<open>The notification handler\<close>

text \<open>
  \<open>piece_up\<close> and \<open>piece_down\<close> are the methods a subclass supplies. A run of the handler
  is described by the calls it makes, in order, each with the session as it is when the
  call is made, for callbacks that return normally.
\<close>

datatype call = PieceUp nat piece | PieceDown nat piece

definition send_message :: "(nat \<rightharpoonup> char) \<Rightarrow> nat \<Rightarrow> nat \<Rightarrow> nat \<Rightarrow> error + call list" where
  "send_message cd loc old new =
     (if old \<noteq> new then
        (if new = 0 then
           (case dict_get cd old of
              Inl e \<Rightarrow> Inl e
            | Inr sy \<Rightarrow> (case from_symbol sy of Inl e \<Rightarrow> Inl e | Inr pc \<Rightarrow> Inr [PieceUp loc pc]))
         else
           (case dict_get cd new of
              Inl e \<Rightarrow> Inl e
            | Inr sy \<Rightarrow> (case from_symbol sy of Inl e \<Rightarrow> Inl e | Inr pc \<Rightarrow> Inr [PieceDown loc pc])))
      else Inr [])"

text \<open>
  The loop \<open>for i in range(32)\<close> of the handler over the new and the old buffer. The
  calls made before an exception stay made.
\<close>

fun handler_loop :: "(nat \<rightharpoonup> char) \<Rightarrow> session \<Rightarrow> byte list \<Rightarrow> byte list \<Rightarrow> nat list
    \<Rightarrow> (session \<times> call) list \<times> error option" where
  "handler_loop cd s rdata od [] = ([], None)"
| "handler_loop cd s rdata od (i # is) =
     (case getitem rdata i of
        Inl e \<Rightarrow> ([], Some e)
      | Inr new \<Rightarrow>
          (case getitem od i of
             Inl e \<Rightarrow> ([], Some e)
           | Inr old \<Rightarrow>
               if new \<noteq> old then
                 (let cur_left = unat (new AND 0xf); old_left = unat (old AND 0xf);
                      cur_right = unat (drop_bit 4 new); old_right = unat (drop_bit 4 old) in
                  case send_message cd (63 - i * 2) old_left cur_left of
                    Inl e \<Rightarrow> ([], Some e)
                  | Inr c1 \<Rightarrow>
                      (case send_message cd (63 - (i * 2 + 1)) old_right cur_right of
                         Inl e \<Rightarrow> (map (Pair s) c1, Some e)
                       | Inr c2 \<Rightarrow>
                           (case handler_loop cd s rdata od is of
                              (tr, err) \<Rightarrow> (map (Pair s) (c1 @ c2) @ tr, err))))
               else handler_loop cd s rdata od is))"

text \<open>
  \<open>_handler(_, data)\<close>: the result is the session, the calls made and the exception, if
  one ended the run.
\<close>

definition handler :: "(nat \<rightharpoonup> char) \<Rightarrow> session \<Rightarrow> byte list
    \<Rightarrow> session \<times> (session \<times> call) list \<times> error option" where
  "handler cd s data =
     (let rdata = ByteArray (take 32 (drop 2 data)) in
      if rdata \<noteq> old_data s then
        (let s1 = s\<lparr>board_changed := True\<rparr>;
             s2 = s1\<lparr>board_state := rdata\<rparr>;
             od = old_data s2;
             s3 = s2\<lparr>old_data := rdata\<rparr>
         in case handler_loop cd s3 (items rdata) (items od) [0..<32] of
              (tr, err) \<Rightarrow> (s3, tr, err))
      else (s, [], None))"

section \<open>An instance of the symbol table\<close>

text \<open>
  Modelled from the spec: \<open>constants.convertDict\<close> is not among the sources. The spec
  fixes its shape, a nibble-to-symbol mapping of twelve piece codes and the empty
  square, with nibble 0 the empty square; this table has that shape and instantiates the
  parameter \<open>cd\<close> where a concrete run is evaluated.
\<close>

definition convertDict :: "nat \<rightharpoonup> char" where
  "convertDict =
     [0 \<mapsto> CHR '' '', 1 \<mapsto> CHR ''q'', 2 \<mapsto> CHR ''k'', 3 \<mapsto> CHR ''b'', 4 \<mapsto> CHR ''p'',
      5 \<mapsto> CHR ''n'', 6 \<mapsto> CHR ''R'', 7 \<mapsto> CHR ''P'', 8 \<mapsto> CHR ''r'', 9 \<mapsto> CHR ''B'',
      10 \<mapsto> CHR ''N'', 11 \<mapsto> CHR ''Q'', 12 \<mapsto> CHR ''K'']"

text \<open>The buffer of the starting position, and the payload that carries it.\<close>

definition start_buffer :: "byte list" where
  "start_buffer =
     [0x58, 0x23, 0x31, 0x85, 0x44, 0x44, 0x44, 0x44] @ replicate 16 0 @
     [0x77, 0x77, 0x77, 0x77, 0xA6, 0xC9, 0x9B, 0x6A]"

section \<open>Well-formed buffers\<close>

text \<open>
  A nibble has a piece-symbol mapping when the table maps it to the empty symbol or to
  one of the twelve piece symbols; a board-state buffer is 32 bytes of such nibbles.
\<close>

definition valid_nibble :: "(nat \<rightharpoonup> char) \<Rightarrow> nat \<Rightarrow> bool" where
  "valid_nibble cd n =
     (case cd n of None \<Rightarrow> False | Some s \<Rightarrow> s = CHR '' '' \<or> s \<in> set ''pnbrqkPNBRQK'')"

definition valid_buffer :: "(nat \<rightharpoonup> char) \<Rightarrow> byte list \<Rightarrow> bool" where
  "valid_buffer cd bs =
     (length bs = 32 \<and>
      list_all (\<lambda>b. valid_nibble cd (unat (b AND 0xf)) \<and> valid_nibble cd (unat (drop_bit 4 b))) bs)"

text \<open>
  The nibble at sensor index \<open>k\<close> (0..63; byte \<open>k div 2\<close>, the low nibble first) and
  the piece the decoder gives it.
\<close>

definition nibble_at :: "byte list \<Rightarrow> nat \<Rightarrow> nat" where
  "nibble_at bs k =
     (if even k then unat (bs ! (k div 2) AND 0xf) else unat (drop_bit 4 (bs ! (k div 2))))"

definition piece_at :: "(nat \<rightharpoonup> char) \<Rightarrow> byte list \<Rightarrow> nat \<Rightarrow> piece option" where
  "piece_at cd bs k = (case square_piece cd (nibble_at bs k) of Inl e \<Rightarrow> None | Inr pc \<Rightarrow> pc)"

section \<open>Reading an LED frame\<close>

text \<open>
  The name of the square on file \<open>file\<close> (0 for a, 7 for h) and rank \<open>rank\<close> (1..8), and
  the lists \<open>change_leds\<close> accepts: names of two characters, a file letter and a rank
  digit.
\<close>

definition square_name :: "nat \<Rightarrow> nat \<Rightarrow> string" where
  "square_name file rank = [''abcdefgh'' ! file, ''12345678'' ! (rank - 1)]"

definition valid_pos :: "string \<Rightarrow> bool" where
  "valid_pos pos =
     (length pos = 2 \<and> pos ! 0 \<in> set ''abcdefgh'' \<and> pos ! 1 \<in> set ''12345678'')"

text \<open>
  The squares an illumination request names, by file and rank; square \<open>8 (rank - 1) + file\<close>
  is the library's number of that square.
\<close>

definition requested :: "led_request \<Rightarrow> nat \<Rightarrow> nat \<Rightarrow> bool" where
  "requested req file rank =
     (case req of
        SquareSet squares \<Rightarrow> in_squareset (8 * (rank - 1) + file) squares
      | PosList ps \<Rightarrow> square_name file rank \<in> set ps
      | NoRequest \<Rightarrow> False)"

definition valid_request :: "led_request \<Rightarrow> bool" where
  "valid_request req =
     (case req of
        SquareSet squares \<Rightarrow> True
      | PosList ps \<Rightarrow> list_all valid_pos ps
      | NoRequest \<Rightarrow> False)"

text \<open>One swap of \<open>flip_horizontal\<close>, and the index each swap reads a bit from.\<close>

definition swap_step :: "nat \<Rightarrow> squareset \<Rightarrow> squareset \<Rightarrow> squareset" where
  "swap_step k m b = (drop_bit k b AND m) OR push_bit k (b AND m)"

definition mirror4 :: "nat \<Rightarrow> nat" where
  "mirror4 n = (if n mod 8 < 4 then n + 4 else n - 4)"

definition mirror2 :: "nat \<Rightarrow> nat" where
  "mirror2 n = (if n mod 4 < 2 then n + 2 else n - 2)"

definition mirror1 :: "nat \<Rightarrow> nat" where
  "mirror1 n = (if even n then n + 1 else n - 1)"

section \<open>Properties of the square notation\<close>

lemma str_nat_digit: "n < 10 \<Longrightarrow> str_nat n = [digit_char n]"
  by simp

lemma loc_to_pos_file:
  "hd (loc_to_pos location rv) \<in> set ''hgfedcba''"
proof -
  have "nat (location mod 8) < 8" by simp
  then have "nat (location mod 8) < length ''hgfedcba''" by simp
  then have "''hgfedcba'' ! nat (location mod 8) \<in> set ''hgfedcba''"
    by (rule nth_mem)
  then show ?thesis by (simp add: loc_to_pos_def)
qed

text \<open>
  Without the reversed flag every square 0..63 is rendered as a file letter a..h
  followed by one rank digit 1..8.
\<close>

lemma loc_to_pos_not_reversed:
  assumes "0 \<le> location" and "location < 64"
  shows "\<exists>f r. loc_to_pos location False = [f, r] \<and> f \<in> set ''abcdefgh''
           \<and> r \<in> set ''12345678''"
proof -
  let ?k = "nat (8 - location div 8)"
  from assms have k: "1 \<le> ?k" "?k \<le> 8" by auto
  then have "?k \<in> {1, 2, 3, 4, 5, 6, 7, 8}" by auto
  then have r: "digit_char ?k \<in> set ''12345678''"
    by (auto simp: digit_char_def)
  from assms have nonneg: "\<not> 8 - location div 8 < 0" by auto
  have "loc_to_pos location False = [''hgfedcba'' ! nat (location mod 8), digit_char ?k]"
    using k nonneg by (simp add: loc_to_pos_def str_int_def)
  moreover have "''hgfedcba'' ! nat (location mod 8) \<in> set ''abcdefgh''"
    using loc_to_pos_file [of location False] by (auto simp: loc_to_pos_def)
  ultimately show ?thesis using r by blast
qed

text \<open>
  C7. The claim: for every square 0..63 and both values of the reversed flag the
  result is a file letter a..h followed by a rank digit 1..8. With the reversed flag
  the code renders \<open>location // 8\<close> itself, which is 0..7: square 0 becomes \<open>h0\<close>,
  whose rank character is not one of 1..8.
\<close>

theorem loc_to_pos_reversed_rank_zero:
  "loc_to_pos 0 True = ''h0'' \<and> CHR ''0'' \<notin> set ''12345678''"
  by (simp add: loc_to_pos_def str_int_def digit_char_def)

section \<open>Properties of the decoder\<close>

lemma from_symbol_piece_letters:
  "s \<in> set ''pnbrqkPNBRQK'' \<Longrightarrow> \<exists>pc. from_symbol s = Inr pc \<and> symbol pc = s"
  by (auto simp: from_symbol_def lower_char_def PIECE_SYMBOLS_def isupper_char_def symbol_def
      upper_char_def)

lemma square_piece_valid:
  assumes "valid_nibble cd n"
  shows "\<exists>s pc. cd n = Some s \<and> square_piece cd n = Inr pc \<and>
           map_option symbol pc = (if s = CHR '' '' then None else Some s)"
proof -
  from assms obtain s where s: "cd n = Some s" "s = CHR '' '' \<or> s \<in> set ''pnbrqkPNBRQK''"
    by (auto simp: valid_nibble_def split: option.splits)
  show ?thesis
  proof (cases "s = CHR '' ''")
    case True
    with s show ?thesis by (simp add: square_piece_def dict_get_def)
  next
    case False
    with s have "s \<in> set ''pnbrqkPNBRQK''" by blast
    then obtain pc where "from_symbol s = Inr pc" "symbol pc = s"
      using from_symbol_piece_letters by blast
    with s False show ?thesis by (simp add: square_piece_def dict_get_def)
  qed
qed

lemma square_piece_piece_at:
  assumes "valid_nibble cd (nibble_at bs k)"
  shows "square_piece cd (nibble_at bs k) = Inr (piece_at cd bs k)"
  using square_piece_valid [OF assms] by (auto simp: piece_at_def)

lemma decode_from_valid:
  assumes "\<forall>i\<in>set is. i < length bs \<and> valid_nibble cd (nibble_at bs (2 * i))
             \<and> valid_nibble cd (nibble_at bs (2 * i + 1))"
  shows "decode_from cd bs is =
           (concat (map (\<lambda>i. [(63 - i * 2, piece_at cd bs (2 * i)),
                               (63 - (i * 2 + 1), piece_at cd bs (2 * i + 1))]) is), None)"
  using assms
proof (induction "is")
  case Nil
  then show ?case by simp
next
  case (Cons i "is")
  from Cons.prems have i: "i < length bs" "valid_nibble cd (nibble_at bs (2 * i))"
    "valid_nibble cd (nibble_at bs (2 * i + 1))" by auto
  have lo: "square_piece cd (unat (bs ! i AND 0xf)) = Inr (piece_at cd bs (2 * i))"
    using square_piece_piece_at [OF i(2)] by (simp add: nibble_at_def)
  have hi: "square_piece cd (unat (drop_bit 4 (bs ! i))) = Inr (piece_at cd bs (2 * i + 1))"
    using square_piece_piece_at [OF i(3)] by (simp add: nibble_at_def)
  from Cons have rest: "decode_from cd bs is =
      (concat (map (\<lambda>i. [(63 - i * 2, piece_at cd bs (2 * i)),
                          (63 - (i * 2 + 1), piece_at cd bs (2 * i + 1))]) is), None)"
    by simp
  show ?case using i(1) lo hi rest by (simp add: getitem_def)
qed

lemma concat_pairs_upt:
  "concat (map (\<lambda>i. [f (2 * i), f (2 * i + 1)]) [0..<n]) = map f [0..<2 * n]"
  by (induction n) simp_all

lemma valid_buffer_nibbles:
  assumes "valid_buffer cd bs" and "k < 64"
  shows "valid_nibble cd (nibble_at bs k)"
proof -
  from assms have len: "k div 2 < length bs" by (simp add: valid_buffer_def)
  from assms(1) have "\<forall>b\<in>set bs. valid_nibble cd (unat (b AND 0xf))
      \<and> valid_nibble cd (unat (drop_bit 4 b))"
    by (simp add: valid_buffer_def list_all_iff)
  with len have "valid_nibble cd (unat (bs ! (k div 2) AND 0xf))
      \<and> valid_nibble cd (unat (drop_bit 4 (bs ! (k div 2))))"
    using nth_mem by blast
  then show ?thesis by (simp add: nibble_at_def)
qed

lemma decoded_valid_buffer:
  assumes "valid_buffer cd (items buf)"
  shows "board_state_as_square_and_piece cd buf =
           (map (\<lambda>k. (63 - k, piece_at cd (items buf) k)) [0..<64], None)"
proof -
  let ?bs = "items buf"
  have "\<forall>i\<in>set [0..<32]. i < length ?bs \<and> valid_nibble cd (nibble_at ?bs (2 * i))
          \<and> valid_nibble cd (nibble_at ?bs (2 * i + 1))"
    using assms valid_buffer_nibbles [OF assms] by (auto simp: valid_buffer_def)
  then have "decode_from cd ?bs [0..<32] =
      (concat (map (\<lambda>i. [(63 - i * 2, piece_at cd ?bs (2 * i)),
                          (63 - (i * 2 + 1), piece_at cd ?bs (2 * i + 1))]) [0..<32]), None)"
    by (rule decode_from_valid)
  also have "concat (map (\<lambda>i. [(63 - i * 2, piece_at cd ?bs (2 * i)),
                          (63 - (i * 2 + 1), piece_at cd ?bs (2 * i + 1))]) [0..<32])
      = map (\<lambda>k. (63 - k, piece_at cd ?bs k)) [0..<2 * 32]"
    using concat_pairs_upt [of "\<lambda>k. (63 - k, piece_at cd ?bs k)" 32]
    by (simp add: mult.commute)
  finally show ?thesis by (simp add: board_state_as_square_and_piece_def)
qed

text \<open>
  C1. For a 32-byte buffer whose nibbles all have piece-symbol mappings the decoder
  yields 64 pairs and raises nothing; for each byte index \<open>i\<close> below 32 the pair at
  position \<open>2 i\<close> is square \<open>63 - 2 i\<close> with the piece of the byte's low nibble and the
  pair at position \<open>2 i + 1\<close> is square \<open>63 - (2 i + 1)\<close> with the piece of its high
  nibble, where the piece of a nibble is the piece whose symbol the table gives, and no
  piece when the table gives the empty symbol.
\<close>

theorem board_state_decoded:
  assumes "valid_buffer cd (items buf)"
  shows "\<exists>ys. board_state_as_square_and_piece cd buf = (ys, None) \<and> length ys = 64 \<and>
    (\<forall>i<32. \<exists>sl sr.
       cd (unat (items buf ! i AND 0xf)) = Some sl \<and>
       cd (unat (drop_bit 4 (items buf ! i))) = Some sr \<and>
       fst (ys ! (2 * i)) = 63 - 2 * i \<and>
       map_option symbol (snd (ys ! (2 * i))) = (if sl = CHR '' '' then None else Some sl) \<and>
       fst (ys ! (2 * i + 1)) = 63 - (2 * i + 1) \<and>
       map_option symbol (snd (ys ! (2 * i + 1))) = (if sr = CHR '' '' then None else Some sr))"
proof -
  let ?bs = "items buf"
  let ?ys = "map (\<lambda>k. (63 - k, piece_at cd ?bs k)) [0..<64]"
  have dec: "board_state_as_square_and_piece cd buf = (?ys, None)"
    by (rule decoded_valid_buffer [OF assms])
  have each: "\<exists>sl sr.
       cd (unat (?bs ! i AND 0xf)) = Some sl \<and>
       cd (unat (drop_bit 4 (?bs ! i))) = Some sr \<and>
       fst (?ys ! (2 * i)) = 63 - 2 * i \<and>
       map_option symbol (snd (?ys ! (2 * i))) = (if sl = CHR '' '' then None else Some sl) \<and>
       fst (?ys ! (2 * i + 1)) = 63 - (2 * i + 1) \<and>
       map_option symbol (snd (?ys ! (2 * i + 1))) = (if sr = CHR '' '' then None else Some sr)"
    if i: "i < 32" for i
  proof -
    from i have k: "2 * i < 64" "2 * i + 1 < 64" by simp_all
    have nl: "nibble_at ?bs (2 * i) = unat (?bs ! i AND 0xf)"
      and nr: "nibble_at ?bs (2 * i + 1) = unat (drop_bit 4 (?bs ! i))"
      by (simp_all add: nibble_at_def)
    obtain sl pl where l: "cd (nibble_at ?bs (2 * i)) = Some sl"
        "square_piece cd (nibble_at ?bs (2 * i)) = Inr pl"
        "map_option symbol pl = (if sl = CHR '' '' then None else Some sl)"
      using square_piece_valid [OF valid_buffer_nibbles [OF assms k(1)]] by blast
    obtain sr pr where r: "cd (nibble_at ?bs (2 * i + 1)) = Some sr"
        "square_piece cd (nibble_at ?bs (2 * i + 1)) = Inr pr"
        "map_option symbol pr = (if sr = CHR '' '' then None else Some sr)"
      using square_piece_valid [OF valid_buffer_nibbles [OF assms k(2)]] by blast
    have pl: "piece_at cd ?bs (2 * i) = pl" using l(2) by (simp add: piece_at_def)
    have pr: "piece_at cd ?bs (2 * i + 1) = pr" using r(2) by (simp add: piece_at_def)
    have yl: "?ys ! (2 * i) = (63 - 2 * i, pl)"
      using k(1) pl by (simp del: upt_Suc)
    have yr: "?ys ! (2 * i + 1) = (63 - (2 * i + 1), pr)"
      using k(2) pr by (simp del: upt_Suc)
    show ?thesis
      using l(1,3) r(1,3) unfolding yl yr nl nr by auto
  qed
  have "length ?ys = 64" by simp
  with dec each show ?thesis by blast
qed

lemma valid_start_buffer: "valid_buffer convertDict start_buffer"
  by code_simp

theorem board_state_decoded_witness:
  "valid_buffer convertDict (items (ByteArray start_buffer)) \<and>
   (\<exists>ys. board_state_as_square_and_piece convertDict (ByteArray start_buffer) = (ys, None)
      \<and> length ys = 64)"
  using board_state_decoded [of convertDict "ByteArray start_buffer"] valid_start_buffer
  by auto

section \<open>Properties of the LED command\<close>

lemma below64: "n < 64 \<Longrightarrow> list_all P [0..<64] \<Longrightarrow> P n"
  by (simp add: list_all_iff)

lemma below8: "n < 8 \<Longrightarrow> list_all P [0..<8] \<Longrightarrow> P n"
  by (simp add: list_all_iff)

lemma mask1_bits: "list_all (\<lambda>n. bit (0x5555555555555555 :: 64 word) n = even n) [0..<64]"
  by code_simp

lemma mask2_bits: "list_all (\<lambda>n. bit (0x3333333333333333 :: 64 word) n = (n mod 4 < 2)) [0..<64]"
  by code_simp

lemma mask4_bits: "list_all (\<lambda>n. bit (0x0f0f0f0f0f0f0f0f :: 64 word) n = (n mod 8 < 4)) [0..<64]"
  by code_simp

lemma mask1: "bit (0x5555555555555555 :: 64 word) n = (n < 64 \<and> even n)"
proof (cases "n < 64")
  case True
  then show ?thesis using below64 [OF True mask1_bits] by simp
next
  case False
  then show ?thesis by (simp add: not_bit_length)
qed

lemma mask2: "bit (0x3333333333333333 :: 64 word) n = (n < 64 \<and> n mod 4 < 2)"
proof (cases "n < 64")
  case True
  then show ?thesis using below64 [OF True mask2_bits] by simp
next
  case False
  then show ?thesis by (simp add: not_bit_length)
qed

lemma mask4: "bit (0x0f0f0f0f0f0f0f0f :: 64 word) n = (n < 64 \<and> n mod 8 < 4)"
proof (cases "n < 64")
  case True
  then show ?thesis using below64 [OF True mask4_bits] by simp
next
  case False
  then show ?thesis by (simp add: not_bit_length)
qed

lemma swap_step_bit:
  "bit (swap_step k m b) n =
     ((bit b (n + k) \<and> bit m n) \<or> (k \<le> n \<and> n < 64 \<and> bit b (n - k) \<and> bit m (n - k)))"
  unfolding swap_step_def
  by (simp only: bit_or_iff bit_and_iff bit_drop_bit_eq bit_push_bit_iff possible_bit_word)
     (auto simp: add.commute)

lemma swap_step_mirror:
  assumes n: "n < 64"
    and mask: "\<And>i. bit m i = (i < 64 \<and> P i)"
    and lo: "P n \<Longrightarrow> \<not> (k \<le> n \<and> P (n - k))"
    and hi: "\<not> P n \<Longrightarrow> k \<le> n \<and> P (n - k)"
  shows "bit (swap_step k m b) n = bit b (if P n then n + k else n - k)"
proof (cases "P n")
  case True
  with lo have "\<not> (k \<le> n \<and> P (n - k))" by blast
  with True n show ?thesis
    unfolding swap_step_bit mask by auto
next
  case False
  with hi have "k \<le> n" "P (n - k)" by blast+
  moreover from n have "n - k < 64" by simp
  ultimately show ?thesis
    using False n unfolding swap_step_bit mask by auto
qed

lemma swap1_indices:
  "list_all (\<lambda>n. (even n \<longrightarrow> \<not> (1 \<le> n \<and> even (n - 1))) \<and>
                  (odd n \<longrightarrow> 1 \<le> n \<and> even (n - 1))) [0..<64]"
  by code_simp

lemma swap2_indices:
  "list_all (\<lambda>n. (n mod 4 < 2 \<longrightarrow> \<not> (2 \<le> n \<and> (n - 2) mod 4 < 2)) \<and>
                  (\<not> n mod 4 < 2 \<longrightarrow> 2 \<le> n \<and> (n - 2) mod 4 < 2)) [0..<64]"
  by code_simp

lemma swap4_indices:
  "list_all (\<lambda>n. (n mod 8 < 4 \<longrightarrow> \<not> (4 \<le> n \<and> (n - 4) mod 8 < 4)) \<and>
                  (\<not> n mod 8 < 4 \<longrightarrow> 4 \<le> n \<and> (n - 4) mod 8 < 4)) [0..<64]"
  by code_simp

lemma swap1_bit:
  assumes "n < 64"
  shows "bit (swap_step 1 0x5555555555555555 b) n = bit b (mirror1 n)"
  unfolding mirror1_def
proof (rule swap_step_mirror [where P = even, OF assms])
  show "bit (0x5555555555555555 :: 64 word) i = (i < 64 \<and> even i)" for i by (rule mask1)
  show "even n \<Longrightarrow> \<not> (1 \<le> n \<and> even (n - 1))"
    using below64 [OF assms swap1_indices] by blast
  show "odd n \<Longrightarrow> 1 \<le> n \<and> even (n - 1)"
    using below64 [OF assms swap1_indices] by blast
qed

lemma swap2_bit:
  assumes "n < 64"
  shows "bit (swap_step 2 0x3333333333333333 b) n = bit b (mirror2 n)"
  unfolding mirror2_def
proof (rule swap_step_mirror [where P = "\<lambda>i. i mod 4 < 2", OF assms])
  show "bit (0x3333333333333333 :: 64 word) i = (i < 64 \<and> i mod 4 < 2)" for i by (rule mask2)
  show "n mod 4 < 2 \<Longrightarrow> \<not> (2 \<le> n \<and> (n - 2) mod 4 < 2)"
    using below64 [OF assms swap2_indices] by blast
  show "\<not> n mod 4 < 2 \<Longrightarrow> 2 \<le> n \<and> (n - 2) mod 4 < 2"
    using below64 [OF assms swap2_indices] by blast
qed

lemma swap4_bit:
  assumes "n < 64"
  shows "bit (swap_step 4 0x0f0f0f0f0f0f0f0f b) n = bit b (mirror4 n)"
  unfolding mirror4_def
proof (rule swap_step_mirror [where P = "\<lambda>i. i mod 8 < 4", OF assms])
  show "bit (0x0f0f0f0f0f0f0f0f :: 64 word) i = (i < 64 \<and> i mod 8 < 4)" for i by (rule mask4)
  show "n mod 8 < 4 \<Longrightarrow> \<not> (4 \<le> n \<and> (n - 4) mod 8 < 4)"
    using below64 [OF assms swap4_indices] by blast
  show "\<not> n mod 8 < 4 \<Longrightarrow> 4 \<le> n \<and> (n - 4) mod 8 < 4"
    using below64 [OF assms swap4_indices] by blast
qed

lemma flip_horizontal_steps:
  "flip_horizontal bb =
     swap_step 4 0x0f0f0f0f0f0f0f0f (swap_step 2 0x3333333333333333
       (swap_step 1 0x5555555555555555 bb))"
  by (simp only: flip_horizontal_def swap_step_def Let_def)

lemma mirror_index:
  "list_all (\<lambda>n. mirror4 n < 64 \<and> mirror2 (mirror4 n) < 64 \<and>
       mirror1 (mirror2 (mirror4 n)) = 8 * (n div 8) + (7 - n mod 8)) [0..<64]"
  by code_simp

lemma flip_horizontal_bit:
  assumes "n < 64"
  shows "bit (flip_horizontal bb) n = bit bb (8 * (n div 8) + (7 - n mod 8))"
proof -
  have a: "mirror4 n < 64" and b: "mirror2 (mirror4 n) < 64"
    and c: "mirror1 (mirror2 (mirror4 n)) = 8 * (n div 8) + (7 - n mod 8)"
    using below64 [OF assms mirror_index] by blast+
  have "bit (flip_horizontal bb) n =
      bit (swap_step 2 0x3333333333333333 (swap_step 1 0x5555555555555555 bb)) (mirror4 n)"
    unfolding flip_horizontal_steps by (rule swap4_bit [OF assms])
  also have "\<dots> = bit (swap_step 1 0x5555555555555555 bb) (mirror2 (mirror4 n))"
    by (rule swap2_bit [OF a])
  also have "\<dots> = bit bb (mirror1 (mirror2 (mirror4 n)))"
    by (rule swap1_bit [OF b])
  finally show ?thesis unfolding c .
qed

lemma flip_horizontal_rank_file:
  assumes "q < 8" and "r < 8"
  shows "bit (flip_horizontal bb) (8 * q + r) = bit bb (8 * q + (7 - r))"
proof -
  from assms have "8 * q + r < 64" by simp
  then have "bit (flip_horizontal bb) (8 * q + r)
      = bit bb (8 * ((8 * q + r) div 8) + (7 - (8 * q + r) mod 8))"
    by (rule flip_horizontal_bit)
  also from assms have "(8 * q + r) div 8 = q" by simp
  also from assms have "(8 * q + r) mod 8 = r" by simp
  finally show ?thesis .
qed

lemma to_bytes_big_length: "length (to_bytes_big n) = 8"
  by (simp add: to_bytes_big_def)

lemma to_bytes_big_bit:
  assumes "k < 8" and "j < 8"
  shows "bit (to_bytes_big n ! k) j = bit n (8 * (7 - k) + j)"
proof -
  from assms(1) have "to_bytes_big n ! k = ucast (drop_bit (8 * (7 - k)) n)"
    unfolding to_bytes_big_def by (simp del: upt_Suc)
  then show ?thesis using assms(2) by (simp add: bit_ucast_iff bit_drop_bit_eq)
qed

lemma squareset_frame_bit:
  assumes "1 \<le> rank" and "rank \<le> 8" and "file < 8"
  shows "bit (to_bytes_big (flip_horizontal squares) ! (8 - rank)) (7 - file)
           = in_squareset (8 * (rank - 1) + file) squares"
proof -
  from assms have k: "8 - rank < 8" and j: "7 - file < 8" by simp_all
  from assms have q: "rank - 1 < 8" by simp
  from assms have idx: "7 - (8 - rank) = rank - 1" and fl: "7 - (7 - file) = file"
    by simp_all
  have "bit (to_bytes_big (flip_horizontal squares) ! (8 - rank)) (7 - file)
      = bit (flip_horizontal squares) (8 * (rank - 1) + (7 - file))"
    using to_bytes_big_bit [OF k j] unfolding idx .
  also have "\<dots> = bit squares (8 * (rank - 1) + (7 - (7 - file)))"
    by (rule flip_horizontal_rank_file [OF q j])
  finally show ?thesis unfolding fl in_squareset_def .
qed

end
